theory Spec2Isabelle
  imports Complex_Main "HOL-Library.Word"
begin

section \<open>Go values used by the weighted benchmark\<close>

subsection \<open>float64\<close>

text \<open>
  A \<open>float64\<close> is a finite number, an infinity or NaN. Finite arithmetic is exact here:
  rounding to 53 bits, overflow of a finite result to an infinity and the sign of zero
  are not modelled. NaN and the infinities follow IEEE 754: every comparison with NaN is
  false, \<open>Inf * 0\<close> and \<open>Inf - Inf\<close> are NaN, \<open>math.Sqrt\<close> of a negative number is NaN.

  So the value of a sample, and with it the index, is that of the program only up to
  rounding: the double nearest 0.3 times 40 is 12.0 in the program and a little less than
  12 here; a sum a little above 1 that the program rounds to 1.0 and accepts is rejected
  here; and \<open>float64(n)\<close> is exact here beyond \<open>2^53\<close>, where the program rounds. The
  theorems below are about the range of the index, the number of draws, the zero the
  loop falls back to and the equality of two runs; none of them rests on the value of a
  product or a sum other than \<open>0 * n = 0\<close>, which rounding leaves as it is.
\<close>

datatype float64 = Fin real | PosInf | NegInf | NaN

fun f64_neg :: "float64 \<Rightarrow> float64" where
  "f64_neg (Fin x) = Fin (- x)"
| "f64_neg PosInf = NegInf"
| "f64_neg NegInf = PosInf"
| "f64_neg NaN = NaN"

definition inf_times :: "float64 \<Rightarrow> real \<Rightarrow> float64" where
  \<comment> \<open>an infinity \<open>i\<close> times the finite number \<open>r\<close>\<close>
  "inf_times i r = (if r = 0 then NaN else if 0 < r then i else f64_neg i)"

fun f64_mul :: "float64 \<Rightarrow> float64 \<Rightarrow> float64" where
  "f64_mul (Fin x) (Fin y) = Fin (x * y)"
| "f64_mul NaN _ = NaN"
| "f64_mul _ NaN = NaN"
| "f64_mul PosInf (Fin y) = inf_times PosInf y"
| "f64_mul NegInf (Fin y) = inf_times NegInf y"
| "f64_mul (Fin x) PosInf = inf_times PosInf x"
| "f64_mul (Fin x) NegInf = inf_times NegInf x"
| "f64_mul PosInf PosInf = PosInf"
| "f64_mul PosInf NegInf = NegInf"
| "f64_mul NegInf PosInf = NegInf"
| "f64_mul NegInf NegInf = PosInf"

fun f64_add :: "float64 \<Rightarrow> float64 \<Rightarrow> float64" where
  "f64_add (Fin x) (Fin y) = Fin (x + y)"
| "f64_add NaN _ = NaN"
| "f64_add _ NaN = NaN"
| "f64_add PosInf NegInf = NaN"
| "f64_add NegInf PosInf = NaN"
| "f64_add PosInf _ = PosInf"
| "f64_add NegInf _ = NegInf"
| "f64_add (Fin x) PosInf = PosInf"
| "f64_add (Fin x) NegInf = NegInf"

fun f64_le :: "float64 \<Rightarrow> float64 \<Rightarrow> bool" where
  "f64_le (Fin x) (Fin y) = (x \<le> y)"
| "f64_le NaN _ = False"
| "f64_le _ NaN = False"
| "f64_le NegInf _ = True"
| "f64_le _ PosInf = True"
| "f64_le PosInf _ = False"
| "f64_le (Fin x) NegInf = False"

definition f64_ge :: "float64 \<Rightarrow> float64 \<Rightarrow> bool" where
  "f64_ge a b = f64_le b a"

fun f64_sqrt :: "float64 \<Rightarrow> float64" where
  "f64_sqrt (Fin x) = (if x < 0 then NaN else Fin (sqrt x))"
| "f64_sqrt PosInf = PosInf"
| "f64_sqrt NegInf = NaN"
| "f64_sqrt NaN = NaN"

text \<open>
  Go's \<open>int\<close> is modelled by \<open>int\<close>; the values that occur (a slice length, a loop
  counter, an index clamped into a slice) stay far inside its 64 bits.
  \<open>float64(n)\<close> is exact in this model. \<open>int(x)\<close> truncates towards zero; for a value
  that no \<open>int\<close> holds (NaN, an infinity, a magnitude of \<open>2^63\<close> or more) Go leaves the
  result to the implementation, and the model takes amd64's \<open>-2^63\<close>.
\<close>

definition f64_of_int :: "int \<Rightarrow> float64" where
  "f64_of_int n = Fin (of_int n)"

definition min_int64 :: int where
  "min_int64 = - (2 ^ 63)"

definition f64_to_int :: "float64 \<Rightarrow> int" where
  "f64_to_int x =
     (case x of
        Fin r \<Rightarrow>
          (let t = (if 0 \<le> r then \<lfloor>r\<rfloor> else \<lceil>r\<rceil>)
           in if min_int64 \<le> t \<and> t < 2 ^ 63 then t else min_int64)
      | _ \<Rightarrow> min_int64)"

subsection \<open>math/rand\<close>

text \<open>
  A \<open>*rand.Rand\<close> is the sequence of values its \<open>NormFloat64\<close> will return and a
  cursor into it. The sequence is arbitrary: nothing below depends on its values being
  normally distributed, or even finite. The number of draws between two states
  of one generator is the difference of their cursors.
\<close>

record Rand =
  src :: "nat \<Rightarrow> float64"
  pos :: nat

definition NormFloat64 :: "Rand \<Rightarrow> float64 \<times> Rand" where
  "NormFloat64 r = (src r (pos r), r\<lparr>pos := Suc (pos r)\<rparr>)"

section \<open>The weighted sampler\<close>

record WeightedDistribution =
  Count :: int
  Mean :: float64
  Variance :: float64

definition maxSamples :: nat where
  "maxSamples = 100000"

definition in_unit :: "float64 \<Rightarrow> bool" where
  \<comment> \<open>\<open>sample >= 0.0 && sample <= 1.0\<close>\<close>
  "in_unit sample = (f64_ge sample (Fin 0) \<and> f64_le sample (Fin 1))"

text \<open>
  The rejection loop of \<open>sampleTableIndex\<close>, from iteration \<open>i\<close> on. It returns the
  variable \<open>value\<close> as the loop leaves it (the accepted sample, or the zero it was
  declared with when all \<open>maxSamples\<close> draws were rejected) and the generator.
\<close>

function draw_loop :: "nat \<Rightarrow> Rand \<Rightarrow> float64 \<Rightarrow> float64 \<Rightarrow> float64 \<times> Rand" where
  "draw_loop i rng stddev mean =
     (if i < maxSamples then
        (case NormFloat64 rng of
           (z, rng') \<Rightarrow>
             (let sample = f64_add (f64_mul z stddev) mean
              in if in_unit sample then (sample, rng')
                 else draw_loop (i + 1) rng' stddev mean))
      else (Fin 0, rng))"
  by pat_completeness auto
termination
  by (relation "measure (\<lambda>(i, rng, stddev, mean). maxSamples - i)") auto

declare draw_loop.simps [simp del]

definition sampleTableIndex :: "Rand \<Rightarrow> WeightedDistribution \<Rightarrow> int \<Rightarrow> int \<times> Rand" where
  "sampleTableIndex rng d numTables =
     (let stddev = f64_sqrt (Variance d) in
      case draw_loop 0 rng stddev (Mean d) of
        (v, rng') \<Rightarrow>
          (let idx = f64_to_int (f64_mul v (f64_of_int numTables));
               idx = (if idx \<ge> numTables then numTables - 1 else idx);
               idx = (if idx < 0 then 0 else idx)
           in (idx, rng')))"

definition sample_of :: "WeightedDistribution \<Rightarrow> float64 \<Rightarrow> float64" where
  \<comment> \<open>the sample computed from the draw \<open>z\<close>: \<open>z * stddev + dist.Mean\<close>\<close>
  "sample_of d z = f64_add (f64_mul z (f64_sqrt (Variance d))) (Mean d)"

section \<open>Strings, errors and the records of the benchmark\<close>

subsection \<open>fmt\<close>

definition digit_chars :: string where
  "digit_chars = ''0123456789''"

fun show_nat :: "nat \<Rightarrow> string" where
  "show_nat n =
     (if n < 10 then [digit_chars ! n]
      else show_nat (n div 10) @ [digit_chars ! (n mod 10)])"

declare show_nat.simps [simp del]

definition show_int :: "int \<Rightarrow> string" where
  \<comment> \<open>the verb \<open>%d\<close>\<close>
  "show_int i = (if i < 0 then CHR ''-'' # show_nat (nat (- i)) else show_nat (nat i))"

fun join_space :: "string list \<Rightarrow> string" where
  "join_space [] = []"
| "join_space [x] = x"
| "join_space (x # y # ys) = x @ '' '' @ join_space (y # ys)"

definition show_strings :: "string list \<Rightarrow> string" where
  \<comment> \<open>the verb \<open>%v\<close> on a slice of strings: \<open>[a b c]\<close>\<close>
  "show_strings xs = ''['' @ join_space xs @ '']''"

subsection \<open>error\<close>

text \<open>
  An error value is a message, or a message prefix wrapping a cause, as
  \<open>fmt.Errorf("...: %w", err)\<close> builds it. A nil error is \<open>None\<close>.
\<close>

datatype error = ErrNew string | ErrWrap string error

fun Error :: "error \<Rightarrow> string" where
  "Error (ErrNew m) = m"
| "Error (ErrWrap p c) = p @ Error c"

fun Unwrap :: "error \<Rightarrow> error option" where
  "Unwrap (ErrNew m) = None"
| "Unwrap (ErrWrap p c) = Some c"

subsection \<open>The catalog, its client and the measurements\<close>

text \<open>
  The packages \<open>iceberg\<close> and \<open>iceberg/rest\<close> and the embedded \<open>Common\<close> are used through
  their interfaces only. A \<open>Tree\<close> is what its two methods return; the client is the
  errors its calls return; \<open>UpdateStatus\<close> and the send to the collector's channel are
  events of a trace.
\<close>

record TableInfo =
  Namespace :: "string list"
  Name :: string

record TreeConfig =
  NamespaceWidth :: int
  NamespaceDepth :: int
  TablesPerNS :: int
  BaseLocation :: string
  CatalogName :: string

record Tree =
  TotalTables :: int
  AllTables :: "TableInfo list"

record TableUpdate =
  Action :: string
  Props :: "(string \<times> string) list"  \<comment> \<open>the map \<open>Updates\<close> of a \<open>rest.TableUpdate\<close>\<close>

record CommitTableRequest =
  Updates :: "TableUpdate list"

datatype request =
    GetTable string "string list" string
  | UpdateTable string "string list" string CommitTableRequest

datatype OpType = OpTableGet | OpTableUpdate

record Operation =
  OpType :: OpType
  Thread :: "32 word"
  File :: string
  ObjPerOp :: int
  Endpoint :: string
  OpStart :: nat  \<comment> \<open>the field \<open>Start\<close>, a reading of the monotonic clock\<close>
  OpEnd :: nat  \<comment> \<open>the field \<open>End\<close>\<close>
  Err :: string

datatype event =
    Status string  \<comment> \<open>\<open>b.UpdateStatus(msg)\<close>\<close>
  | Request request "error option"  \<comment> \<open>a call of the client and the error it returned\<close>
  | Send Operation  \<comment> \<open>\<open>rcv <- op\<close>\<close>

record IcebergWeighted =
  Tree :: "Tree option"
  TreeConfig :: TreeConfig
  Readers :: "WeightedDistribution list"
  Writers :: "WeightedDistribution list"
  Seed :: "64 word"
  tables :: "TableInfo list"

section \<open>Prepare and Cleanup\<close>

text \<open>
  \<open>Prepare\<close> takes \<open>iceberg.NewTree\<close> and the answer of the client to a request as
  parameters. It returns the benchmark as it leaves it, the events in order, and the error.
\<close>

definition Prepare ::
  "(TreeConfig \<Rightarrow> Tree) \<Rightarrow> (request \<Rightarrow> error option) \<Rightarrow> IcebergWeighted
     \<Rightarrow> IcebergWeighted \<times> event list \<times> error option" where
  "Prepare NewTree client b0 =
     (let tree = NewTree (TreeConfig b0);
          b = b0\<lparr>Tree := Some tree\<rparr>;
          ev1 = [Status (''Loading dataset info: '' @ show_int (TotalTables tree) @ '' tables'')];
          b = b\<lparr>tables := AllTables tree\<rparr>
      in if length (tables b) = 0 then
           (b, ev1, Some (ErrNew ''no tables found: check tree configuration''))
         else
           (let ev2 = ev1 @ [Status ''Verifying catalog connectivity...''];
                catalog = CatalogName (TreeConfig b);
                rq = GetTable catalog (Namespace (tables b ! 0)) (Name (tables b ! 0))
            in case client rq of
                 Some err \<Rightarrow>
                   (b, ev2 @ [Request rq (Some err)], Some (ErrWrap ''cannot access table: '' err))
               | None \<Rightarrow>
                   (b, ev2 @ [Request rq None,
                        Status (''Preparation complete - '' @ show_int (int (length (tables b)))
                                @ '' tables available for weighted workload'')],
                    None)))"

definition Cleanup :: "IcebergWeighted \<Rightarrow> IcebergWeighted \<times> event list" where
  "Cleanup b = (b, [Status ''Cleanup: skipping (weighted benchmark does not delete data)''])"

definition is_client_call :: "event \<Rightarrow> bool" where
  "is_client_call ev = (case ev of Request rq r \<Rightarrow> True | _ \<Rightarrow> False)"

definition is_mutating_call :: "event \<Rightarrow> bool" where
  "is_mutating_call ev = (case ev of Request (UpdateTable c ns n rq) r \<Rightarrow> True | _ \<Rightarrow> False)"

section \<open>Start\<close>

text \<open>
  \<open>Start\<close> is modelled by the goroutines it spawns, in the order of the \<open>go\<close> statements:
  which worker function each runs, and the arguments \<open>thread\<close>, \<open>d\<close> and \<open>s\<close> it is
  called with. \<open>sp_group\<close> records \<open>distIdx\<close>, which the goroutine itself does not get.
  The seed is an \<open>int64\<close>: its additions wrap, and the conversion of an \<open>int\<close> keeps the
  low 64 bits. The context, with or without auto-termination, only decides when a worker
  sees \<open>done\<close> closed, which is part of the worker's environment; \<open>Start\<close> waits for
  the workers and returns nil.
\<close>

datatype role = Reader | Writer

record spawned =
  sp_role :: role
  sp_group :: nat
  sp_thread :: int
  sp_dist :: WeightedDistribution
  sp_seed :: "64 word"

definition seed_step :: "role \<Rightarrow> int" where
  \<comment> \<open>the constant of \<open>(distIdx+1)*1000\<close> in the readers' loop, \<open>(distIdx+1)*2000\<close> in the writers'\<close>
  "seed_step r = (case r of Reader \<Rightarrow> 1000 | Writer \<Rightarrow> 2000)"

definition worker_seed :: "role \<Rightarrow> 64 word \<Rightarrow> nat \<Rightarrow> int \<Rightarrow> 64 word" where
  "worker_seed r base distIdx threadID =
     base + word_of_int ((int distIdx + 1) * seed_step r) + word_of_int threadID"

text \<open>The inner loop \<open>for i := 0; i < dist.Count; i++\<close>; it returns \<open>threadID\<close> as it leaves it.\<close>

function spawn_group ::
  "role \<Rightarrow> 64 word \<Rightarrow> nat \<Rightarrow> WeightedDistribution \<Rightarrow> int \<Rightarrow> int \<Rightarrow> spawned list \<times> int" where
  "spawn_group r base distIdx d i threadID =
     (if i < Count d then
        (let w = \<lparr>sp_role = r, sp_group = distIdx, sp_thread = threadID, sp_dist = d,
                    sp_seed = worker_seed r base distIdx threadID\<rparr>
         in case spawn_group r base distIdx d (i + 1) (threadID + 1) of
              (ws, t) \<Rightarrow> (w # ws, t))
      else ([], threadID))"
  by pat_completeness auto
termination
  by (relation "measure (\<lambda>(r, base, distIdx, d, i, threadID). nat (Count d - i))") auto

declare spawn_group.simps [simp del]

text \<open>The outer loop \<open>for distIdx, dist := range ...\<close>, from the group \<open>distIdx\<close> on.\<close>

fun spawn_groups ::
  "role \<Rightarrow> 64 word \<Rightarrow> nat \<Rightarrow> WeightedDistribution list \<Rightarrow> int \<Rightarrow> spawned list \<times> int" where
  "spawn_groups r base distIdx [] threadID = ([], threadID)"
| "spawn_groups r base distIdx (d # ds) threadID =
     (case spawn_group r base distIdx d 0 threadID of
        (ws, t) \<Rightarrow>
          (case spawn_groups r base (Suc distIdx) ds t of
             (ws', t') \<Rightarrow> (ws @ ws', t')))"

definition Start :: "IcebergWeighted \<Rightarrow> spawned list" where
  "Start b =
     (let threadID = 0 in
      case spawn_groups Reader (Seed b) 0 (Readers b) threadID of
        (rs, threadID) \<Rightarrow>
          (case spawn_groups Writer (Seed b) 0 (Writers b) threadID of
             (ws, threadID) \<Rightarrow> rs @ ws))"

section \<open>The workers\<close>

text \<open>
  A worker is run against a sequence of observations of its environment, one for each
  time it is scheduled: at the receive from \<open>wait\<close> (it stays there until the start
  signal has fired), or for one pass through the body of its loop. The clock is
  monotonic, as the readings \<open>time.Now\<close> carries are: it advances by \<open>start_delay\<close>
  until \<open>op.Start\<close> is read and by \<open>call_time\<close> until \<open>op.End\<close> is. The run of a finite
  sequence is a prefix of the worker's execution; a worker that has neither returned nor
  panicked is still running.
\<close>

record env =
  wait_fired :: bool  \<comment> \<open>a receive from \<open>wait\<close> can proceed\<close>
  ctx_done :: bool  \<comment> \<open>\<open>done\<close> is closed at the \<open>select\<close>\<close>
  rps_stop :: bool  \<comment> \<open>\<open>b.rpsLimit(ctx) != nil\<close>\<close>
  unix_ms :: int  \<comment> \<open>\<open>time.Now().UnixMilli()\<close>\<close>
  start_delay :: nat
  call_time :: nat
  call_err :: "error option"  \<comment> \<open>the error of the client's call\<close>

datatype pc = AtWait | InLoop | Returned | Panicked

record worker =
  w_pc :: pc
  w_rng :: Rand
  w_clock :: nat
  w_trace :: "event list"  \<comment> \<open>client calls and sends, in order\<close>
  w_sampled :: "int list"  \<comment> \<open>the values of \<open>tableIdx\<close>, in order\<close>

definition worker_init :: "(64 word \<Rightarrow> nat \<Rightarrow> float64) \<Rightarrow> 64 word \<Rightarrow> worker" where
  \<comment> \<open>\<open>rng := rand.New(rand.NewSource(seed))\<close>, and the worker arrives at \<open><-wait\<close>\<close>
  "worker_init NewSource seed =
     \<lparr>w_pc = AtWait, w_rng = \<lparr>src = NewSource seed, pos = 0\<rparr>, w_clock = 0,
      w_trace = [], w_sampled = []\<rparr>"

definition op_label :: "string \<Rightarrow> TableInfo \<Rightarrow> string" where
  \<comment> \<open>\<open>fmt.Sprintf("%s/%v/%s", catalog, tbl.Namespace, tbl.Name)\<close>\<close>
  "op_label catalog tbl = catalog @ ''/'' @ show_strings (Namespace tbl) @ ''/'' @ Name tbl"

definition err_text :: "error option \<Rightarrow> string" where
  \<comment> \<open>\<open>op.Err\<close> after \<open>if err != nil { op.Err = err.Error() }\<close>\<close>
  "err_text r = (case r of None \<Rightarrow> [] | Some err \<Rightarrow> Error err)"

definition reader_body :: "IcebergWeighted \<Rightarrow> int \<Rightarrow> WeightedDistribution \<Rightarrow> env \<Rightarrow> worker \<Rightarrow> worker" where
  "reader_body b thread d e w =
     (if ctx_done e then w\<lparr>w_pc := Returned\<rparr>
      else if rps_stop e then w\<lparr>w_pc := Returned\<rparr>
      else
        (case sampleTableIndex (w_rng w) d (int (length (tables b))) of
           (tableIdx, rng') \<Rightarrow>
             (let w = w\<lparr>w_rng := rng', w_sampled := w_sampled w @ [tableIdx]\<rparr>
              in if tableIdx < 0 \<or> int (length (tables b)) \<le> tableIdx then w\<lparr>w_pc := Panicked\<rparr>
                 else
                   (let catalog = CatalogName (TreeConfig b);
                        tbl = tables b ! nat tableIdx;
                        t0 = w_clock w + start_delay e;
                        rq = GetTable catalog (Namespace tbl) (Name tbl);
                        err = call_err e;
                        t1 = t0 + call_time e;
                        op = \<lparr>OpType = OpTableGet, Thread = word_of_int thread,
                               File = op_label catalog tbl, ObjPerOp = 1, Endpoint = catalog,
                               OpStart = t0, OpEnd = t1, Err = err_text err\<rparr>
                    in w\<lparr>w_clock := t1, w_trace := w_trace w @ [Request rq err, Send op]\<rparr>))))"

definition writer_body :: "IcebergWeighted \<Rightarrow> int \<Rightarrow> WeightedDistribution \<Rightarrow> env \<Rightarrow> worker \<Rightarrow> worker" where
  "writer_body b thread d e w =
     (if ctx_done e then w\<lparr>w_pc := Returned\<rparr>
      else if rps_stop e then w\<lparr>w_pc := Returned\<rparr>
      else
        (case sampleTableIndex (w_rng w) d (int (length (tables b))) of
           (tableIdx, rng') \<Rightarrow>
             (let w = w\<lparr>w_rng := rng', w_sampled := w_sampled w @ [tableIdx]\<rparr>
              in if tableIdx < 0 \<or> int (length (tables b)) \<le> tableIdx then w\<lparr>w_pc := Panicked\<rparr>
                 else
                   (let catalog = CatalogName (TreeConfig b);
                        tbl = tables b ! nat tableIdx;
                        now = unix_ms e;
                        req = \<lparr>Updates = [\<lparr>Action = ''set-properties'',
                                 Props = [(''last_updated'', show_int now)]\<rparr>]\<rparr>;
                        t0 = w_clock w + start_delay e;
                        rq = UpdateTable catalog (Namespace tbl) (Name tbl) req;
                        err = call_err e;
                        t1 = t0 + call_time e;
                        op = \<lparr>OpType = OpTableUpdate, Thread = word_of_int thread,
                               File = op_label catalog tbl, ObjPerOp = 1, Endpoint = catalog,
                               OpStart = t0, OpEnd = t1, Err = err_text err\<rparr>
                    in w\<lparr>w_clock := t1, w_trace := w_trace w @ [Request rq err, Send op]\<rparr>))))"

definition worker_step :: "(env \<Rightarrow> worker \<Rightarrow> worker) \<Rightarrow> worker \<Rightarrow> env \<Rightarrow> worker" where
  "worker_step body w e =
     (case w_pc w of
        AtWait \<Rightarrow> if wait_fired e then w\<lparr>w_pc := InLoop\<rparr> else w
      | InLoop \<Rightarrow> body e w
      | Returned \<Rightarrow> w
      | Panicked \<Rightarrow> w)"

definition runReader ::
  "(64 word \<Rightarrow> nat \<Rightarrow> float64) \<Rightarrow> IcebergWeighted \<Rightarrow> int \<Rightarrow> WeightedDistribution \<Rightarrow> 64 word
     \<Rightarrow> env list \<Rightarrow> worker" where
  "runReader NewSource b thread d seed envs =
     foldl (worker_step (reader_body b thread d)) (worker_init NewSource seed) envs"

definition runWriter ::
  "(64 word \<Rightarrow> nat \<Rightarrow> float64) \<Rightarrow> IcebergWeighted \<Rightarrow> int \<Rightarrow> WeightedDistribution \<Rightarrow> 64 word
     \<Rightarrow> env list \<Rightarrow> worker" where
  "runWriter NewSource b thread d seed envs =
     foldl (worker_step (writer_body b thread d)) (worker_init NewSource seed) envs"

text \<open>
  The body of a goroutine of \<open>Start\<close>: \<open>b.runReader(ctx, wait, thread, d, s)\<close> for a
  reader, \<open>b.runWriter(ctx, wait, thread, d, s)\<close> for a writer.
\<close>

definition run_worker ::
  "(64 word \<Rightarrow> nat \<Rightarrow> float64) \<Rightarrow> IcebergWeighted \<Rightarrow> role \<Rightarrow> int \<Rightarrow> WeightedDistribution \<Rightarrow> 64 word
     \<Rightarrow> env list \<Rightarrow> worker" where
  "run_worker NewSource b r thread d seed envs =
     (case r of
        Reader \<Rightarrow> runReader NewSource b thread d seed envs
      | Writer \<Rightarrow> runWriter NewSource b thread d seed envs)"

definition run_spawned ::
  "(64 word \<Rightarrow> nat \<Rightarrow> float64) \<Rightarrow> IcebergWeighted \<Rightarrow> spawned \<Rightarrow> env list \<Rightarrow> worker" where
  "run_spawned NewSource b sp envs =
     run_worker NewSource b (sp_role sp) (sp_thread sp) (sp_dist sp) (sp_seed sp) envs"

section \<open>The lifecycle\<close>

text \<open>
  Modelled from the spec: the driver that takes a benchmark through its lifecycle
  (\<open>Created \<rightarrow> Prepared \<rightarrow> Running \<rightarrow> Cleaned\<close>) is not among the sources. As the
  specification has it, no transition is skipped, \<open>Prepare\<close> must complete successfully
  before \<open>Start\<close>, and \<open>Start\<close> must return before \<open>Cleanup\<close>. The result holds the
  status and client events of \<open>Prepare\<close> and \<open>Cleanup\<close>, the workers \<open>Start\<close> spawned
  (\<open>None\<close> when \<open>Start\<close> was not reached) and the error of \<open>Prepare\<close>.
\<close>

definition run_job ::
  "(TreeConfig \<Rightarrow> Tree) \<Rightarrow> (request \<Rightarrow> error option) \<Rightarrow> IcebergWeighted
     \<Rightarrow> event list \<times> spawned list option \<times> error option" where
  "run_job NewTree client b =
     (case Prepare NewTree client b of
        (b', evs, Some err) \<Rightarrow> (evs, None, Some err)
      | (b', evs, None) \<Rightarrow>
          (case Cleanup b' of (b'', evs') \<Rightarrow> (evs @ evs', Some (Start b'), None)))"

section \<open>Notions used in the statements\<close>

subsection \<open>Traces\<close>

text \<open>
  A trace is a sequence of attempts when it is made of pairs: a call of the client,
  followed at once by the send of one operation that satisfies \<open>P\<close> with the call's error.
\<close>

fun attempts :: "(error option \<Rightarrow> Operation \<Rightarrow> bool) \<Rightarrow> event list \<Rightarrow> bool" where
  "attempts P [] = True"
| "attempts P (Request rq r # Send op # evs) = (P r op \<and> attempts P evs)"
| "attempts P _ = False"

definition attempt_ok :: "error option \<Rightarrow> Operation \<Rightarrow> bool" where
  "attempt_ok r op =
     (OpStart op \<le> OpEnd op \<and>
      (case r of None \<Rightarrow> Err op = [] | Some err \<Rightarrow> Err op = Error err))"




definition sends :: "event list \<Rightarrow> Operation list" where
  "sends evs = concat (map (\<lambda>ev. case ev of Send op \<Rightarrow> [op] | _ \<Rightarrow> []) evs)"

definition probe_request :: "TreeConfig \<Rightarrow> TableInfo \<Rightarrow> request" where
  "probe_request cfg tbl = GetTable (CatalogName cfg) (Namespace tbl) (Name tbl)"

subsection \<open>The workers of a group, and the indices of a stream\<close>

definition mk_spawned :: "role \<Rightarrow> 64 word \<Rightarrow> nat \<Rightarrow> WeightedDistribution \<Rightarrow> int \<Rightarrow> spawned" where
  "mk_spawned r base distIdx d threadID =
     \<lparr>sp_role = r, sp_group = distIdx, sp_thread = threadID, sp_dist = d,
      sp_seed = worker_seed r base distIdx threadID\<rparr>"

definition group_size :: "WeightedDistribution \<Rightarrow> nat" where
  "group_size d = nat (Count d)"

definition group_workers :: "role \<Rightarrow> 64 word \<Rightarrow> nat \<Rightarrow> WeightedDistribution \<Rightarrow> int \<Rightarrow> spawned list" where
  "group_workers r base k d t = map (\<lambda>j. mk_spawned r base k d (t + int j)) [0..<group_size d]"

definition readers_of :: "IcebergWeighted \<Rightarrow> spawned list" where
  "readers_of b = fst (spawn_groups Reader (Seed b) 0 (Readers b) 0)"

definition writers_of :: "IcebergWeighted \<Rightarrow> spawned list" where
  "writers_of b = fst (spawn_groups Writer (Seed b) 0 (Writers b) (int (length (readers_of b))))"

definition body_of :: "role \<Rightarrow> IcebergWeighted \<Rightarrow> int \<Rightarrow> WeightedDistribution \<Rightarrow> env \<Rightarrow> worker \<Rightarrow> worker" where
  "body_of r = (case r of Reader \<Rightarrow> reader_body | Writer \<Rightarrow> writer_body)"

text \<open>
  The first \<open>k\<close> indices that successive calls of \<open>sampleTableIndex\<close> return from the
  generator \<open>rng\<close>, and the generator after them.
\<close>

fun index_seq :: "Rand \<Rightarrow> WeightedDistribution \<Rightarrow> int \<Rightarrow> nat \<Rightarrow> int list" where
  "index_seq rng d N 0 = []"
| "index_seq rng d N (Suc k) =
     fst (sampleTableIndex rng d N) # index_seq (snd (sampleTableIndex rng d N)) d N k"

fun rng_after :: "Rand \<Rightarrow> WeightedDistribution \<Rightarrow> int \<Rightarrow> nat \<Rightarrow> Rand" where
  "rng_after rng d N 0 = rng"
| "rng_after rng d N (Suc k) = rng_after (snd (sampleTableIndex rng d N)) d N k"

definition sampling_inv :: "Rand \<Rightarrow> WeightedDistribution \<Rightarrow> int \<Rightarrow> worker \<Rightarrow> bool" where
  "sampling_inv rng0 d N w =
     (w_sampled w = index_seq rng0 d N (length (w_sampled w)) \<and>
      w_rng w = rng_after rng0 d N (length (w_sampled w)))"

subsection \<open>Example inputs\<close>

text \<open>
  The configuration of the command line's defaults (seed 42, eight readers around 0.3,
  two writers around 0.7), a catalog of 40 tables, a generator whose draws are all 0, and
  observations of the environment: blocked at the start barrier, a call that succeeds, a
  call that fails.
\<close>

definition example_job :: IcebergWeighted where
  "example_job =
     \<lparr>Tree = None,
      TreeConfig = \<lparr>NamespaceWidth = 2, NamespaceDepth = 3, TablesPerNS = 5,
                    BaseLocation = ''s3://benchmark'', CatalogName = ''benchmark_catalog''\<rparr>,
      Readers = [\<lparr>Count = 8, Mean = Fin (3 / 10), Variance = Fin (278 / 10000)\<rparr>],
      Writers = [\<lparr>Count = 2, Mean = Fin (7 / 10), Variance = Fin (278 / 10000)\<rparr>],
      Seed = 42, tables = []\<rparr>"

definition example_tree :: Tree where
  "example_tree =
     \<lparr>TotalTables = 2,
      AllTables = [\<lparr>Namespace = [''ns1'', ''a''], Name = ''t1''\<rparr>,
                   \<lparr>Namespace = [''ns1'', ''a''], Name = ''t2''\<rparr>]\<rparr>"

definition example_table :: TableInfo where
  "example_table = \<lparr>Namespace = [''ns1'', ''a''], Name = ''t1''\<rparr>"

definition prepared_job :: IcebergWeighted where
  "prepared_job = example_job\<lparr>tables := replicate 40 example_table\<rparr>"

definition reader_dist :: WeightedDistribution where
  "reader_dist = \<lparr>Count = 8, Mean = Fin (3 / 10), Variance = Fin (278 / 10000)\<rparr>"

definition zero_source :: "64 word \<Rightarrow> nat \<Rightarrow> float64" where
  "zero_source seed k = Fin 0"

definition env_blocked :: env where
  "env_blocked = \<lparr>wait_fired = False, ctx_done = False, rps_stop = False, unix_ms = 1700000000000,
                   start_delay = 1, call_time = 5, call_err = None\<rparr>"

definition env_ok :: env where
  "env_ok = \<lparr>wait_fired = True, ctx_done = False, rps_stop = False, unix_ms = 1700000000000,
              start_delay = 1, call_time = 5, call_err = None\<rparr>"

definition env_fail :: env where
  "env_fail = \<lparr>wait_fired = True, ctx_done = False, rps_stop = False, unix_ms = 1700000000000,
                start_delay = 2, call_time = 3, call_err = Some (ErrNew ''503 Service Unavailable'')\<rparr>"

text \<open>Three reader groups of one worker each and one writer group of 1000 workers.\<close>

definition collide_job :: IcebergWeighted where
  "collide_job =
     \<lparr>Tree = None,
      TreeConfig = \<lparr>NamespaceWidth = 2, NamespaceDepth = 3, TablesPerNS = 5,
                    BaseLocation = ''s3://benchmark'', CatalogName = ''benchmark_catalog''\<rparr>,
      Readers = [\<lparr>Count = 1, Mean = Fin (3 / 10), Variance = Fin (278 / 10000)\<rparr>,
                 \<lparr>Count = 1, Mean = Fin (3 / 10), Variance = Fin (278 / 10000)\<rparr>,
                 \<lparr>Count = 1, Mean = Fin (3 / 10), Variance = Fin (278 / 10000)\<rparr>],
      Writers = [\<lparr>Count = 1000, Mean = Fin (7 / 10), Variance = Fin (278 / 10000)\<rparr>],
      Seed = 42, tables = []\<rparr>"

section \<open>Properties of the sampler\<close>

subsection \<open>The rejection loop\<close>

text \<open>The loop only moves the cursor of the generator, by at most the draws it has left.\<close>

lemma draw_loop_cursor:
  "pos rng \<le> pos (snd (draw_loop i rng s m)) \<and>
   pos (snd (draw_loop i rng s m)) \<le> pos rng + (maxSamples - i) \<and>
   src (snd (draw_loop i rng s m)) = src rng"
proof (induction i rng s m rule: draw_loop.induct)
  case (1 i rng stddev mean)
  show ?case
  proof (cases "i < maxSamples")
    case False
    then show ?thesis by (simp add: draw_loop.simps [of i])
  next
    case True
    let ?z = "src rng (pos rng)"
    let ?rng' = "rng\<lparr>pos := Suc (pos rng)\<rparr>"
    let ?sample = "f64_add (f64_mul ?z stddev) mean"
    show ?thesis
    proof (cases "in_unit ?sample")
      case True
      with \<open>i < maxSamples\<close> show ?thesis
        by (simp add: draw_loop.simps [of i] NormFloat64_def)
    next
      case False
      have ih: "pos ?rng' \<le> pos (snd (draw_loop (i + 1) ?rng' stddev mean)) \<and>
           pos (snd (draw_loop (i + 1) ?rng' stddev mean)) \<le> pos ?rng' + (maxSamples - (i + 1)) \<and>
           src (snd (draw_loop (i + 1) ?rng' stddev mean)) = src ?rng'"
        using "1.IH" [of ?z ?rng' ?sample] True False
        by (simp add: NormFloat64_def)
      have eq: "draw_loop i rng stddev mean = draw_loop (i + 1) ?rng' stddev mean"
        using True False by (simp add: draw_loop.simps [of i] NormFloat64_def)
      have "maxSamples - i = Suc (maxSamples - (i + 1))"
        using True by simp
      with ih show ?thesis unfolding eq by simp
    qed
  qed
qed

text \<open>When every remaining draw is rejected, the loop leaves \<open>value\<close> at zero.\<close>

lemma draw_loop_exhausted:
  "(\<forall>k. i + k < maxSamples \<longrightarrow> \<not> in_unit (f64_add (f64_mul (src rng (pos rng + k)) s) m))
   \<Longrightarrow> draw_loop i rng s m = (Fin 0, rng\<lparr>pos := pos rng + (maxSamples - i)\<rparr>)"
proof (induction i rng s m rule: draw_loop.induct)
  case (1 i rng stddev mean)
  show ?case
  proof (cases "i < maxSamples")
    case False
    then show ?thesis by (simp add: draw_loop.simps [of i])
  next
    case True
    let ?z = "src rng (pos rng)"
    let ?rng' = "rng\<lparr>pos := Suc (pos rng)\<rparr>"
    let ?sample = "f64_add (f64_mul ?z stddev) mean"
    have rej: "\<not> in_unit ?sample"
      using "1.prems" [rule_format, of 0] True by simp
    have eq: "draw_loop i rng stddev mean = draw_loop (i + 1) ?rng' stddev mean"
      using True rej by (simp add: draw_loop.simps [of i] NormFloat64_def)
    have "\<forall>k. (i + 1) + k < maxSamples \<longrightarrow>
            \<not> in_unit (f64_add (f64_mul (src ?rng' (pos ?rng' + k)) stddev) mean)"
      using "1.prems" [rule_format, of "Suc k" for k] by simp
    then have "draw_loop (i + 1) ?rng' stddev mean =
        (Fin 0, ?rng'\<lparr>pos := pos ?rng' + (maxSamples - (i + 1))\<rparr>)"
      using "1.IH" [of ?z ?rng' ?sample] True rej
      by (simp add: NormFloat64_def)
    then show ?thesis using True unfolding eq by simp
  qed
qed

lemma fallback_index: "0 \<le> N \<Longrightarrow> f64_to_int (f64_mul (Fin 0) (f64_of_int N)) = 0"
  by (simp add: f64_to_int_def f64_of_int_def min_int64_def)

subsection \<open>The index\<close>

lemma sampleTableIndex_clamped:
  "1 \<le> N \<Longrightarrow> 0 \<le> fst (sampleTableIndex rng d N) \<and> fst (sampleTableIndex rng d N) < N"
  by (simp add: sampleTableIndex_def Let_def split: prod.split)

text \<open>
  C1. For every random stream, every distribution (any mean, any variance, NaN and the
  infinities included) and every number of tables \<open>N \<ge> 1\<close>, the index that
  \<open>sampleTableIndex\<close> returns lies in \<open>[0, N - 1]\<close>.
\<close>

theorem sampleTableIndex_in_range:
  assumes "1 \<le> N"
  shows "0 \<le> fst (sampleTableIndex rng d N) \<and> fst (sampleTableIndex rng d N) \<le> N - 1"
  using assms by (simp add: sampleTableIndex_def Let_def split: prod.split)

theorem sampleTableIndex_in_range_witness:
  "(1::int) \<le> 40 \<and>
   0 \<le> fst (sampleTableIndex \<lparr>src = \<lambda>k. Fin 0, pos = 0\<rparr> \<lparr>Count = 8, Mean = Fin (3 / 10), Variance = Fin 0\<rparr> 40) \<and>
   fst (sampleTableIndex \<lparr>src = \<lambda>k. Fin 0, pos = 0\<rparr> \<lparr>Count = 8, Mean = Fin (3 / 10), Variance = Fin 0\<rparr> 40) \<le> 40 - 1"
  using sampleTableIndex_in_range
    [of 40 "\<lparr>src = \<lambda>k. Fin 0, pos = 0\<rparr>" "\<lparr>Count = 8, Mean = Fin (3 / 10), Variance = Fin 0\<rparr>"]
  by simp

text \<open>With a mean of 0.3, draws of 0 and 40 tables the index is 12, after one draw.\<close>

lemma sampleTableIndex_example:
  "sampleTableIndex \<lparr>src = zero_source s, pos = k\<rparr> reader_dist 40 = (12, \<lparr>src = zero_source s, pos = Suc k\<rparr>)"
  by (simp add: sampleTableIndex_def draw_loop.simps [of 0] maxSamples_def NormFloat64_def
      in_unit_def f64_ge_def f64_of_int_def f64_to_int_def min_int64_def reader_dist_def
      zero_source_def)

text \<open>
  C9. With a single table, \<open>sampleTableIndex\<close> returns index 0 for every random stream
  and every distribution.
\<close>

theorem sampleTableIndex_single_table: "fst (sampleTableIndex rng d 1) = 0"
  by (simp add: sampleTableIndex_def Let_def split: prod.split)

text \<open>
  C2. \<open>sampleTableIndex\<close> is total (the loop is defined with its termination proof) and
  draws at most \<open>10^5\<close> times from the generator, for every stream, distribution and
  number of tables. When none of the \<open>10^5\<close> draws gives a sample in \<open>[0, 1]\<close>, the
  variable \<open>value\<close> keeps the zero it was declared with and the index is 0 (for the
  length of a slice, \<open>N \<ge> 0\<close>).
\<close>

theorem sampleTableIndex_draws_bounded:
  "pos rng \<le> pos (snd (sampleTableIndex rng d N)) \<and>
   pos (snd (sampleTableIndex rng d N)) \<le> pos rng + 100000 \<and>
   src (snd (sampleTableIndex rng d N)) = src rng \<and>
   ((\<forall>k<100000. \<not> in_unit (sample_of d (src rng (pos rng + k)))) \<and> 0 \<le> N \<longrightarrow>
      fst (draw_loop 0 rng (f64_sqrt (Variance d)) (Mean d)) = Fin 0 \<and>
      sampleTableIndex rng d N = (0, rng\<lparr>pos := pos rng + 100000\<rparr>))"
proof -
  let ?s = "f64_sqrt (Variance d)"
  let ?r = "draw_loop 0 rng ?s (Mean d)"
  have snd_eq: "snd (sampleTableIndex rng d N) = snd ?r"
    by (simp add: sampleTableIndex_def Let_def split: prod.split)
  have cur: "pos rng \<le> pos (snd ?r) \<and> pos (snd ?r) \<le> pos rng + (maxSamples - 0) \<and> src (snd ?r) = src rng"
    by (rule draw_loop_cursor)
  have fb: "fst ?r = Fin 0 \<and> sampleTableIndex rng d N = (0, rng\<lparr>pos := pos rng + 100000\<rparr>)"
    if rej: "\<forall>k<100000. \<not> in_unit (sample_of d (src rng (pos rng + k)))" and N: "0 \<le> N"
  proof -
    have "\<forall>k. 0 + k < maxSamples \<longrightarrow> \<not> in_unit (f64_add (f64_mul (src rng (pos rng + k)) ?s) (Mean d))"
      using rej by (simp add: sample_of_def maxSamples_def)
    then have r: "?r = (Fin 0, rng\<lparr>pos := pos rng + (maxSamples - 0)\<rparr>)"
      by (rule draw_loop_exhausted)
    show ?thesis
      using N fallback_index [OF N] by (simp add: sampleTableIndex_def r maxSamples_def)
  qed
  show ?thesis
    using cur fb unfolding snd_eq by (simp add: maxSamples_def)
qed

theorem sampleTableIndex_draws_bounded_witness:
  "sampleTableIndex \<lparr>src = \<lambda>k. Fin 5, pos = 0\<rparr> \<lparr>Count = 1, Mean = Fin 1000, Variance = Fin 0\<rparr> 40
     = (0, \<lparr>src = \<lambda>k. Fin 5, pos = 100000\<rparr>)"
  using sampleTableIndex_draws_bounded
    [of "\<lparr>src = \<lambda>k. Fin 5, pos = 0\<rparr>" "\<lparr>Count = 1, Mean = Fin 1000, Variance = Fin 0\<rparr>" 40]
  by (simp add: sample_of_def in_unit_def f64_ge_def)

section \<open>Properties of Start\<close>

subsection \<open>The loops\<close>

lemma spawn_group_eq:
  "spawn_group r base k d i t =
     (map (\<lambda>j. mk_spawned r base k d (t + int j)) [0..<nat (Count d - i)],
      t + int (nat (Count d - i)))"
proof (induction r base k d i t rule: spawn_group.induct)
  case (1 r base distIdx d i threadID)
  show ?case
  proof (cases "i < Count d")
    case False
    then show ?thesis by (simp add: spawn_group.simps [of r base distIdx d i])
  next
    case True
    define n where "n = nat (Count d - (i + 1))"
    have n: "nat (Count d - i) = Suc n"
      using True by (simp add: n_def)
    have ih: "spawn_group r base distIdx d (i + 1) (threadID + 1) =
        (map (\<lambda>j. mk_spawned r base distIdx d (threadID + 1 + int j)) [0..<n], threadID + 1 + int n)"
      using "1.IH" [OF True refl] by (simp add: n_def)
    have "[0..<Suc n] = 0 # map Suc [0..<n]"
      by (simp add: upt_conv_Cons map_Suc_upt del: upt_Suc)
    then have "map (\<lambda>j. mk_spawned r base distIdx d (threadID + int j)) [0..<Suc n] =
        mk_spawned r base distIdx d threadID #
        map (\<lambda>j. mk_spawned r base distIdx d (threadID + 1 + int j)) [0..<n]"
      by (simp add: o_def add.assoc del: upt_Suc)
    then show ?thesis
      using True unfolding n
      by (simp add: spawn_group.simps [of r base distIdx d i] ih mk_spawned_def del: upt_Suc)
  qed
qed

lemma spawn_group_0: "spawn_group r base k d 0 t = (group_workers r base k d t, t + int (group_size d))"
  by (simp add: spawn_group_eq group_workers_def group_size_def)

lemma spawn_groups_Cons:
  "fst (spawn_groups r base k (d # ds) t) =
     group_workers r base k d t @ fst (spawn_groups r base (Suc k) ds (t + int (group_size d)))"
  "snd (spawn_groups r base k (d # ds) t) =
     snd (spawn_groups r base (Suc k) ds (t + int (group_size d)))"
  by (simp_all add: spawn_group_0 split: prod.split)

declare spawn_groups.simps(2) [simp del]

lemma length_group_workers: "length (group_workers r base k d t) = group_size d"
  by (simp add: group_workers_def)

lemma group_workers_nth:
  "i < group_size d \<Longrightarrow> group_workers r base k d t ! i = mk_spawned r base k d (t + int i)"
  by (simp add: group_workers_def)

lemma group_workers_member:
  "w \<in> set (group_workers r base k d t) \<Longrightarrow> sp_role w = r \<and> sp_group w = k \<and> sp_dist w = d"
  by (auto simp: group_workers_def mk_spawned_def)

lemma group_workers_count:
  "length (filter (\<lambda>w. sp_group w = j) (group_workers r base k d t)) =
     (if j = k then group_size d else 0)"
proof -
  have "filter (\<lambda>w. sp_group w = j) (group_workers r base k d t) =
      (if j = k then group_workers r base k d t else [])"
    by (auto simp: filter_empty_conv filter_id_conv dest: group_workers_member)
  then show ?thesis by (simp add: length_group_workers)
qed

lemma spawn_groups_length:
  "length (fst (spawn_groups r base k ds t)) = (\<Sum>d\<leftarrow>ds. group_size d)"
proof (induction ds arbitrary: k t)
  case Nil
  then show ?case by simp
next
  case (Cons d ds)
  show ?case by (simp add: spawn_groups_Cons length_group_workers Cons.IH)
qed

lemma spawn_groups_next_thread:
  "snd (spawn_groups r base k ds t) = t + int (length (fst (spawn_groups r base k ds t)))"
proof (induction ds arbitrary: k t)
  case Nil
  then show ?case by simp
next
  case (Cons d ds)
  show ?case by (simp add: spawn_groups_Cons length_group_workers Cons.IH)
qed

lemma spawn_groups_members:
  "w \<in> set (fst (spawn_groups r base k ds t)) \<Longrightarrow>
     sp_role w = r \<and> k \<le> sp_group w \<and> sp_group w < k + length ds \<and>
     sp_dist w = ds ! (sp_group w - k)"
proof (induction ds arbitrary: k t)
  case Nil
  then show ?case by simp
next
  case (Cons d ds)
  let ?t = "t + int (group_size d)"
  from Cons.prems consider
      (here) "w \<in> set (group_workers r base k d t)"
    | (later) "w \<in> set (fst (spawn_groups r base (Suc k) ds ?t))"
    by (auto simp: spawn_groups_Cons)
  then show ?case
  proof cases
    case here
    from group_workers_member [OF here] show ?thesis by simp
  next
    case later
    from Cons.IH [OF later]
    have a: "sp_role w = r" and b: "Suc k \<le> sp_group w" and c: "sp_group w < Suc k + length ds"
      and e: "sp_dist w = ds ! (sp_group w - Suc k)"
      by simp_all
    from b have "sp_group w - k = Suc (sp_group w - Suc k)" by simp
    then have "(d # ds) ! (sp_group w - k) = ds ! (sp_group w - Suc k)" by simp
    with a b c e show ?thesis by simp
  qed
qed

lemma spawn_groups_count:
  "length (filter (\<lambda>w. sp_group w = j) (fst (spawn_groups r base k ds t))) =
     (if k \<le> j \<and> j < k + length ds then group_size (ds ! (j - k)) else 0)"
proof (induction ds arbitrary: k t)
  case Nil
  then show ?case by simp
next
  case (Cons d ds)
  let ?t = "t + int (group_size d)"
  have "length (filter (\<lambda>w. sp_group w = j) (fst (spawn_groups r base k (d # ds) t))) =
      (if j = k then group_size d else 0) +
      (if Suc k \<le> j \<and> j < Suc k + length ds then group_size (ds ! (j - Suc k)) else 0)"
    by (simp only: spawn_groups_Cons filter_append length_append group_workers_count Cons.IH)
  also have "\<dots> = (if k \<le> j \<and> j < k + length (d # ds) then group_size ((d # ds) ! (j - k)) else 0)"
  proof (cases "j = k")
    case True
    then show ?thesis by simp
  next
    case False
    show ?thesis
    proof (cases "Suc k \<le> j")
      case True
      then have "j - k = Suc (j - Suc k)" by simp
      then have "(d # ds) ! (j - k) = ds ! (j - Suc k)" by simp
      with True False show ?thesis by simp
    next
      case False
      with \<open>j \<noteq> k\<close> show ?thesis by simp
    qed
  qed
  finally show ?case .
qed

lemma spawn_groups_nth:
  "i < length (fst (spawn_groups r base k ds t)) \<Longrightarrow>
     sp_thread (fst (spawn_groups r base k ds t) ! i) = t + int i \<and>
     sp_seed (fst (spawn_groups r base k ds t) ! i) =
       worker_seed r base (sp_group (fst (spawn_groups r base k ds t) ! i)) (t + int i)"
proof (induction ds arbitrary: k t i)
  case Nil
  then show ?case by simp
next
  case (Cons d ds)
  let ?t = "t + int (group_size d)"
  show ?case
  proof (cases "i < group_size d")
    case True
    then show ?thesis
      by (simp add: spawn_groups_Cons nth_append length_group_workers group_workers_nth mk_spawned_def)
  next
    case False
    then have i': "i - group_size d < length (fst (spawn_groups r base (Suc k) ds ?t))"
      using Cons.prems by (simp add: spawn_groups_Cons length_group_workers)
    from Cons.IH [OF i'] False show ?thesis
      by (simp add: spawn_groups_Cons nth_append length_group_workers)
  qed
qed

lemma Start_eq: "Start b = readers_of b @ writers_of b"
proof -
  obtain rs t where rs: "spawn_groups Reader (Seed b) 0 (Readers b) 0 = (rs, t)"
    by force
  obtain ws t' where ws: "spawn_groups Writer (Seed b) 0 (Writers b) t = (ws, t')"
    by force
  have "t = int (length rs)"
    using spawn_groups_next_thread [of Reader "Seed b" 0 "Readers b" 0] rs by simp
  with rs ws show ?thesis
    by (simp add: Start_def readers_of_def writers_of_def)
qed

lemma sum_group_size:
  "\<forall>d\<in>set ds. 0 \<le> Count d \<Longrightarrow> int (\<Sum>d\<leftarrow>ds. group_size d) = (\<Sum>d\<leftarrow>ds. Count d)"
  by (induction ds) (simp_all add: group_size_def)

subsection \<open>The workers spawned\<close>

text \<open>
  C5. When no group has a negative \<open>Count\<close> (a distribution's count is a non-negative
  integer), \<open>Start\<close> spawns exactly \<open>Count\<close> workers for each configured distribution,
  every reader before every writer, each worker with the distribution of its group, and
  the number of workers spawned is the sum of \<open>Count\<close> over the reader and writer groups.
\<close>

theorem Start_spawns_Count_workers:
  assumes nonneg: "\<forall>d\<in>set (Readers b @ Writers b). 0 \<le> Count d"
  shows "int (length (Start b)) = (\<Sum>d\<leftarrow>Readers b. Count d) + (\<Sum>d\<leftarrow>Writers b. Count d) \<and>
         (\<exists>rs ws. Start b = rs @ ws \<and>
           (\<forall>w\<in>set rs. sp_role w = Reader \<and> sp_group w < length (Readers b) \<and>
                        sp_dist w = Readers b ! sp_group w) \<and>
           (\<forall>w\<in>set ws. sp_role w = Writer \<and> sp_group w < length (Writers b) \<and>
                        sp_dist w = Writers b ! sp_group w)) \<and>
         (\<forall>k<length (Readers b).
           int (length (filter (\<lambda>w. sp_role w = Reader \<and> sp_group w = k) (Start b))) =
             Count (Readers b ! k)) \<and>
         (\<forall>k<length (Writers b).
           int (length (filter (\<lambda>w. sp_role w = Writer \<and> sp_group w = k) (Start b))) =
             Count (Writers b ! k))"
proof -
  have R: "\<And>w. w \<in> set (readers_of b) \<Longrightarrow>
      sp_role w = Reader \<and> sp_group w < length (Readers b) \<and> sp_dist w = Readers b ! sp_group w"
    unfolding readers_of_def by (drule spawn_groups_members) simp
  have W: "\<And>w. w \<in> set (writers_of b) \<Longrightarrow>
      sp_role w = Writer \<and> sp_group w < length (Writers b) \<and> sp_dist w = Writers b ! sp_group w"
    unfolding writers_of_def by (drule spawn_groups_members) simp
  have lenR: "int (length (readers_of b)) = (\<Sum>d\<leftarrow>Readers b. Count d)"
    using nonneg by (simp add: readers_of_def spawn_groups_length sum_group_size)
  have lenW: "int (length (writers_of b)) = (\<Sum>d\<leftarrow>Writers b. Count d)"
    using nonneg by (simp add: writers_of_def spawn_groups_length sum_group_size)
  have total: "int (length (Start b)) = (\<Sum>d\<leftarrow>Readers b. Count d) + (\<Sum>d\<leftarrow>Writers b. Count d)"
    using lenR lenW by (simp add: Start_eq)
  have order: "\<exists>rs ws. Start b = rs @ ws \<and>
           (\<forall>w\<in>set rs. sp_role w = Reader \<and> sp_group w < length (Readers b) \<and>
                        sp_dist w = Readers b ! sp_group w) \<and>
           (\<forall>w\<in>set ws. sp_role w = Writer \<and> sp_group w < length (Writers b) \<and>
                        sp_dist w = Writers b ! sp_group w)"
    using Start_eq R W by blast
  have fR: "filter (\<lambda>w. sp_role w = Reader \<and> sp_group w = k) (Start b) =
      filter (\<lambda>w. sp_group w = k) (readers_of b)" for k
  proof -
    have "filter (\<lambda>w. sp_role w = Reader \<and> sp_group w = k) (readers_of b) =
        filter (\<lambda>w. sp_group w = k) (readers_of b)"
      by (rule filter_cong) (auto dest: R)
    moreover have "filter (\<lambda>w. sp_role w = Reader \<and> sp_group w = k) (writers_of b) = []"
      by (auto simp: filter_empty_conv dest: W)
    ultimately show ?thesis by (simp add: Start_eq)
  qed
  have fW: "filter (\<lambda>w. sp_role w = Writer \<and> sp_group w = k) (Start b) =
      filter (\<lambda>w. sp_group w = k) (writers_of b)" for k
  proof -
    have "filter (\<lambda>w. sp_role w = Writer \<and> sp_group w = k) (writers_of b) =
        filter (\<lambda>w. sp_group w = k) (writers_of b)"
      by (rule filter_cong) (auto dest: W)
    moreover have "filter (\<lambda>w. sp_role w = Writer \<and> sp_group w = k) (readers_of b) = []"
      by (auto simp: filter_empty_conv dest: R)
    ultimately show ?thesis by (simp add: Start_eq)
  qed
  have readers: "\<forall>k<length (Readers b).
           int (length (filter (\<lambda>w. sp_role w = Reader \<and> sp_group w = k) (Start b))) =
             Count (Readers b ! k)"
    using nonneg by (simp add: fR readers_of_def spawn_groups_count group_size_def)
  have writers: "\<forall>k<length (Writers b).
           int (length (filter (\<lambda>w. sp_role w = Writer \<and> sp_group w = k) (Start b))) =
             Count (Writers b ! k)"
    using nonneg by (simp add: fW writers_of_def spawn_groups_count group_size_def)
  from total order readers writers show ?thesis
    by (intro conjI)
qed

theorem Start_spawns_Count_workers_witness: "length (Start example_job) = 10"
  using Start_spawns_Count_workers [of example_job]
  by (simp add: example_job_def)

text \<open>The threads are numbered in the order of the spawns, across all groups.\<close>

lemma Start_threads:
  assumes "i < length (Start b)"
  shows "sp_thread (Start b ! i) = int i"
proof (cases "i < length (readers_of b)")
  case True
  then show ?thesis
    using spawn_groups_nth [of i Reader "Seed b" 0 "Readers b" 0]
    by (simp add: Start_eq nth_append readers_of_def)
next
  case False
  then have "i - length (readers_of b) < length (writers_of b)"
    using assms by (simp add: Start_eq)
  then show ?thesis
    using False
      spawn_groups_nth [of "i - length (readers_of b)" Writer "Seed b" 0 "Writers b"
        "int (length (readers_of b))"]
    by (simp add: Start_eq nth_append writers_of_def)
qed

subsection \<open>The seeds\<close>

text \<open>The workers of the configuration with three reader groups and one writer group.\<close>

lemma collide_readers:
  "readers_of collide_job =
     [mk_spawned Reader 42 0 \<lparr>Count = 1, Mean = Fin (3 / 10), Variance = Fin (278 / 10000)\<rparr> 0,
      mk_spawned Reader 42 1 \<lparr>Count = 1, Mean = Fin (3 / 10), Variance = Fin (278 / 10000)\<rparr> 1,
      mk_spawned Reader 42 2 \<lparr>Count = 1, Mean = Fin (3 / 10), Variance = Fin (278 / 10000)\<rparr> 2]"
  by (simp add: readers_of_def collide_job_def spawn_groups_Cons group_workers_def group_size_def
      numeral_2_eq_2)

lemma collide_writers:
  "writers_of collide_job =
     map (\<lambda>j. mk_spawned Writer 42 0 \<lparr>Count = 1000, Mean = Fin (7 / 10), Variance = Fin (278 / 10000)\<rparr> (3 + int j))
       [0..<1000]"
  unfolding writers_of_def collide_readers
  by (simp add: collide_job_def spawn_groups_Cons group_workers_def group_size_def)

text \<open>
  C4. The seeds that \<open>Start\<close> derives are not pairwise distinct for every configuration.
  With three reader groups of one worker each and one writer group of 1000 workers, and
  the base seed 42, the reader with thread id 2 (group 2) gets \<open>42 + 3*1000 + 2\<close> and the
  writer with thread id 1002 (group 0) gets \<open>42 + 1*2000 + 1002\<close>: both are 3044.
\<close>

theorem Start_seed_collision:
  "sp_role (Start collide_job ! 2) = Reader \<and> sp_thread (Start collide_job ! 2) = 2 \<and>
   sp_seed (Start collide_job ! 2) = 3044 \<and>
   sp_role (Start collide_job ! 1002) = Writer \<and> sp_thread (Start collide_job ! 1002) = 1002 \<and>
   sp_seed (Start collide_job ! 1002) = 3044 \<and>
   \<not> distinct (map sp_seed (Start collide_job))"
proof -
  let ?ws = "Start collide_job"
  have len: "length ?ws = 1003"
    by (simp add: Start_eq collide_readers collide_writers)
  have a: "?ws ! 2 = mk_spawned Reader 42 2 \<lparr>Count = 1, Mean = Fin (3 / 10), Variance = Fin (278 / 10000)\<rparr> 2"
    by (simp add: Start_eq collide_readers)
  have b: "?ws ! 1002 = mk_spawned Writer 42 0 \<lparr>Count = 1000, Mean = Fin (7 / 10), Variance = Fin (278 / 10000)\<rparr> 1002"
    by (simp add: Start_eq collide_readers collide_writers nth_append)
  have sa: "sp_seed (?ws ! 2) = 3044"
    unfolding a by (simp add: mk_spawned_def worker_seed_def seed_step_def)
  have sb: "sp_seed (?ws ! 1002) = 3044"
    unfolding b by (simp add: mk_spawned_def worker_seed_def seed_step_def)
  have same: "map sp_seed ?ws ! 2 = map sp_seed ?ws ! 1002"
    using sa sb len by simp
  have "\<not> distinct (map sp_seed ?ws)"
  proof
    assume "distinct (map sp_seed ?ws)"
    then have "(map sp_seed ?ws ! 2 = map sp_seed ?ws ! 1002) = ((2::nat) = 1002)"
      by (rule nth_eq_iff_index_eq) (simp_all add: len)
    with same show False by simp
  qed
  then show ?thesis
    using sa sb unfolding a b by (simp add: mk_spawned_def)
qed

text \<open>
  With one reader group and one writer group, which is what the command line builds,
  the seeds are pairwise distinct: the worker with thread id \<open>i\<close> gets the base seed plus
  \<open>1000 + i\<close> as a reader and plus \<open>2000 + i\<close> as a writer.
\<close>

lemma single_group_nth:
  assumes R: "Readers b = [dr]" and W: "Writers b = [dw]" and i: "i < length (Start b)"
  shows "sp_seed (Start b ! i) =
           Seed b + of_nat (if i < group_size dr then 1000 + i else 2000 + i)"
proof -
  have lenR: "length (readers_of b) = group_size dr"
    by (simp add: readers_of_def R spawn_groups_length)
  show ?thesis
  proof (cases "i < group_size dr")
    case True
    then have i': "i < length (fst (spawn_groups Reader (Seed b) 0 (Readers b) 0))"
      using lenR by (simp add: readers_of_def)
    then have "fst (spawn_groups Reader (Seed b) 0 (Readers b) 0) ! i
        \<in> set (fst (spawn_groups Reader (Seed b) 0 (Readers b) 0))"
      by simp
    from spawn_groups_members [OF this]
    have g: "sp_group (fst (spawn_groups Reader (Seed b) 0 (Readers b) 0) ! i) = 0"
      by (simp add: R)
    from spawn_groups_nth [OF i'] g True lenR show ?thesis
      by (simp add: Start_eq nth_append readers_of_def worker_seed_def seed_step_def)
  next
    case False
    let ?j = "i - group_size dr"
    let ?t = "int (length (readers_of b))"
    have j: "?j < length (fst (spawn_groups Writer (Seed b) 0 (Writers b) ?t))"
      using False i lenR by (simp add: Start_eq writers_of_def)
    then have "fst (spawn_groups Writer (Seed b) 0 (Writers b) ?t) ! ?j
        \<in> set (fst (spawn_groups Writer (Seed b) 0 (Writers b) ?t))"
      by simp
    from spawn_groups_members [OF this]
    have g: "sp_group (fst (spawn_groups Writer (Seed b) 0 (Writers b) ?t) ! ?j) = 0"
      by (simp add: W)
    have "?t + int ?j = int i"
      using False lenR by simp
    with spawn_groups_nth [OF j] g False lenR show ?thesis
      by (simp add: Start_eq nth_append writers_of_def worker_seed_def seed_step_def)
  qed
qed

lemma Start_seeds_distinct_single_groups:
  assumes R: "Readers b = [dr]" and W: "Writers b = [dw]"
    and small: "group_size dr + group_size dw < 2 ^ 63"
  shows "distinct (map sp_seed (Start b))"
proof -
  let ?off = "\<lambda>i. if i < group_size dr then 1000 + i else 2000 + i"
  have len: "length (Start b) = group_size dr + group_size dw"
    by (simp add: Start_eq readers_of_def writers_of_def R W spawn_groups_length)
  have inj: "i = j" if "i < length (Start b)" "j < length (Start b)"
    "sp_seed (Start b ! i) = sp_seed (Start b ! j)" for i j
  proof -
    have "(of_nat (?off i) :: 64 word) = of_nat (?off j)"
      using that single_group_nth [OF R W] by simp
    moreover have "?off i < 2 ^ LENGTH(64)" "?off j < 2 ^ LENGTH(64)"
      using that(1,2) small unfolding len by simp_all
    ultimately have "?off i = ?off j"
      by (simp only: word_of_nat_eq_iff take_bit_nat_eq_self)
    then show ?thesis
      using that(1,2) by (simp split: if_splits)
  qed
  show ?thesis
    unfolding distinct_conv_nth using inj by auto
qed

section \<open>Properties of the workers\<close>

lemma run_worker_foldl:
  "run_worker NewSource b r thread d seed envs =
     foldl (worker_step (body_of r b thread d)) (worker_init NewSource seed) envs"
  by (cases r) (simp_all add: run_worker_def body_of_def runReader_def runWriter_def)

lemma run_worker_Nil: "run_worker NewSource b r thread d seed [] = worker_init NewSource seed"
  by (simp add: run_worker_foldl)

lemma run_worker_snoc:
  "run_worker NewSource b r thread d seed (envs @ [e]) =
     worker_step (body_of r b thread d) (run_worker NewSource b r thread d seed envs) e"
  by (simp add: run_worker_foldl)

subsection \<open>The start barrier\<close>

lemma waiting_worker_stays:
  "w_pc w = AtWait \<Longrightarrow> list_all (\<lambda>e. \<not> wait_fired e) envs \<Longrightarrow>
     foldl (worker_step body) w envs = w"
  by (induction envs) (simp_all add: worker_step_def)

text \<open>
  C6. As long as the start signal has not fired, a worker (reader or writer) stays at the
  receive from \<open>wait\<close> and has sent no operation to the collector; it has not called
  the client either. This holds after every prefix of its execution.
\<close>

theorem no_send_before_start_signal:
  assumes "list_all (\<lambda>e. \<not> wait_fired e) envs"
  shows "w_trace (runReader NewSource b thread d seed envs) = [] \<and>
         w_pc (runReader NewSource b thread d seed envs) = AtWait \<and>
         w_trace (runWriter NewSource b thread d seed envs) = [] \<and>
         w_pc (runWriter NewSource b thread d seed envs) = AtWait"
proof -
  have init: "w_pc (worker_init NewSource seed) = AtWait" "w_trace (worker_init NewSource seed) = []"
    by (simp_all add: worker_init_def)
  have "runReader NewSource b thread d seed envs = worker_init NewSource seed"
    unfolding runReader_def using init(1) assms by (rule waiting_worker_stays)
  moreover have "runWriter NewSource b thread d seed envs = worker_init NewSource seed"
    unfolding runWriter_def using init(1) assms by (rule waiting_worker_stays)
  ultimately show ?thesis using init by simp
qed

theorem no_send_before_start_signal_witness:
  "w_trace (runReader zero_source prepared_job 3 reader_dist 1045 [env_blocked, env_blocked]) = [] \<and>
   w_trace (runWriter zero_source prepared_job 9 reader_dist 2051 [env_blocked, env_blocked]) = []"
  using no_send_before_start_signal
      [of "[env_blocked, env_blocked]" zero_source prepared_job 3 reader_dist 1045]
    no_send_before_start_signal
      [of "[env_blocked, env_blocked]" zero_source prepared_job 9 reader_dist 2051]
  by (simp add: env_blocked_def)

subsection \<open>One operation for each request\<close>

lemma attempts_append:
  "attempts P xs \<Longrightarrow> attempts P ys \<Longrightarrow> attempts P (xs @ ys)"
  by (induction P xs rule: attempts.induct) simp_all


lemma attempts_sends:
  "attempts P evs \<Longrightarrow> op \<in> set (sends evs) \<Longrightarrow> \<exists>r. P r op"
  by (induction P evs rule: attempts.induct) (auto simp: sends_def)

lemma body_attempts:
  "attempts attempt_ok (w_trace w) \<Longrightarrow> attempts attempt_ok (w_trace (body_of r b thread d e w))"
  by (cases r)
    (auto simp: body_of_def reader_body_def writer_body_def Let_def attempt_ok_def err_text_def
      intro!: attempts_append split: prod.split option.split)

lemma step_attempts:
  "attempts attempt_ok (w_trace w) \<Longrightarrow>
     attempts attempt_ok (w_trace (worker_step (body_of r b thread d) w e))"
  by (cases "w_pc w") (simp_all add: worker_step_def body_attempts)

lemma run_worker_attempts:
  "attempts attempt_ok (w_trace (run_worker NewSource b r thread d seed envs))"
proof (induction envs rule: rev_induct)
  case Nil
  show ?case by (simp add: run_worker_Nil worker_init_def)
next
  case (snoc e envs)
  then show ?case by (simp only: run_worker_snoc step_attempts)
qed






text \<open>
  A reader that waits, is released, and makes two calls, the second of which fails. The
  first observation after the release only takes it past the barrier.
\<close>

lemma reader_example:
  "w_trace (runReader zero_source prepared_job 3 reader_dist 1045 [env_blocked, env_ok, env_ok, env_fail]) =
     [Request (GetTable ''benchmark_catalog'' [''ns1'', ''a''] ''t1'') None,
      Send \<lparr>OpType = OpTableGet, Thread = 3, File = ''benchmark_catalog/[ns1 a]/t1'', ObjPerOp = 1,
            Endpoint = ''benchmark_catalog'', OpStart = 1, OpEnd = 6, Err = []\<rparr>,
      Request (GetTable ''benchmark_catalog'' [''ns1'', ''a''] ''t1'')
        (Some (ErrNew ''503 Service Unavailable'')),
      Send \<lparr>OpType = OpTableGet, Thread = 3, File = ''benchmark_catalog/[ns1 a]/t1'', ObjPerOp = 1,
            Endpoint = ''benchmark_catalog'', OpStart = 8, OpEnd = 11,
            Err = ''503 Service Unavailable''\<rparr>]"
  by (simp add: runReader_def worker_init_def worker_step_def reader_body_def sampleTableIndex_example
      prepared_job_def example_job_def example_table_def env_blocked_def env_ok_def env_fail_def
      op_label_def show_strings_def err_text_def Let_def)

text \<open>
  The condition on the client's errors is needed: \<open>Err\<close> is a string, and after a call
  that fails with an error whose message is empty it is as empty as after a call that
  succeeds.
\<close>

lemma empty_message_example:
  "w_trace (runReader zero_source prepared_job 3 reader_dist 1045
      [env_ok, env_fail\<lparr>call_err := Some (ErrNew [])\<rparr>]) =
     [Request (GetTable ''benchmark_catalog'' [''ns1'', ''a''] ''t1'') (Some (ErrNew [])),
      Send \<lparr>OpType = OpTableGet, Thread = 3, File = ''benchmark_catalog/[ns1 a]/t1'', ObjPerOp = 1,
            Endpoint = ''benchmark_catalog'', OpStart = 2, OpEnd = 5, Err = []\<rparr>]"
  by (simp add: runReader_def worker_init_def worker_step_def reader_body_def sampleTableIndex_example
      prepared_job_def example_job_def example_table_def env_blocked_def env_ok_def env_fail_def
      op_label_def show_strings_def err_text_def Let_def)

text \<open>Every operation sent ends no earlier than it starts.\<close>

lemma sent_operation_times:
  assumes "op \<in> set (sends (w_trace (run_worker NewSource b r thread d seed envs)))"
  shows "OpStart op \<le> OpEnd op"
  using attempts_sends [OF run_worker_attempts assms] by (auto simp: attempt_ok_def)

subsection \<open>The sampled indices\<close>

lemma index_seq_length: "length (index_seq rng d N k) = k"
  by (induction k arbitrary: rng) simp_all

lemma rng_after_Suc:
  "rng_after rng d N (Suc k) = snd (sampleTableIndex (rng_after rng d N k) d N)"
  by (induction k arbitrary: rng) simp_all

lemma index_seq_Suc:
  "index_seq rng d N (Suc k) =
     index_seq rng d N k @ [fst (sampleTableIndex (rng_after rng d N k) d N)]"
  by (induction k arbitrary: rng) simp_all

lemma index_seq_nth:
  "i < k \<Longrightarrow> index_seq rng d N k ! i = fst (sampleTableIndex (rng_after rng d N i) d N)"
proof (induction k)
  case 0
  then show ?case by simp
next
  case (Suc k)
  show ?case
  proof (cases "i < k")
    case True
    with Suc.IH show ?thesis
      by (simp add: index_seq_Suc nth_append index_seq_length del: index_seq.simps)
  next
    case False
    with Suc.prems have "i = k" by simp
    then show ?thesis
      by (simp add: index_seq_Suc nth_append index_seq_length del: index_seq.simps)
  qed
qed

lemma body_sampled:
  "(w_sampled (body_of r b thread d e w) = w_sampled w \<and>
    w_rng (body_of r b thread d e w) = w_rng w) \<or>
   (w_sampled (body_of r b thread d e w) =
      w_sampled w @ [fst (sampleTableIndex (w_rng w) d (int (length (tables b))))] \<and>
    w_rng (body_of r b thread d e w) =
      snd (sampleTableIndex (w_rng w) d (int (length (tables b)))))"
  by (cases r)
    (simp_all add: body_of_def reader_body_def writer_body_def Let_def split: prod.split)

lemma body_sampling_inv:
  assumes "sampling_inv rng0 d (int (length (tables b))) w"
  shows "sampling_inv rng0 d (int (length (tables b))) (body_of r b thread d e w)"
proof -
  let ?N = "int (length (tables b))"
  let ?k = "length (w_sampled w)"
  let ?w' = "body_of r b thread d e w"
  have a: "w_sampled w = index_seq rng0 d ?N ?k" and c: "w_rng w = rng_after rng0 d ?N ?k"
    using assms by (simp_all add: sampling_inv_def)
  from body_sampled [of r b thread d e w] show ?thesis
  proof
    assume "w_sampled ?w' = w_sampled w \<and> w_rng ?w' = w_rng w"
    with assms show ?thesis by (simp add: sampling_inv_def)
  next
    assume step: "w_sampled ?w' = w_sampled w @ [fst (sampleTableIndex (w_rng w) d ?N)] \<and>
        w_rng ?w' = snd (sampleTableIndex (w_rng w) d ?N)"
    then have len: "length (w_sampled ?w') = Suc ?k"
      by simp
    have "w_sampled ?w' = index_seq rng0 d ?N ?k @ [fst (sampleTableIndex (rng_after rng0 d ?N ?k) d ?N)]"
      using step a c by simp
    then have seq: "w_sampled ?w' = index_seq rng0 d ?N (Suc ?k)"
      by (simp only: index_seq_Suc)
    have "w_rng ?w' = snd (sampleTableIndex (rng_after rng0 d ?N ?k) d ?N)"
      using step c by simp
    then have rng: "w_rng ?w' = rng_after rng0 d ?N (Suc ?k)"
      by (simp only: rng_after_Suc)
    show ?thesis
      unfolding sampling_inv_def len using seq rng by simp
  qed
qed

lemma step_sampling_inv:
  "sampling_inv rng0 d (int (length (tables b))) w \<Longrightarrow>
     sampling_inv rng0 d (int (length (tables b))) (worker_step (body_of r b thread d) w e)"
  by (cases "w_pc w") (simp_all add: worker_step_def body_sampling_inv, simp add: sampling_inv_def)

lemma run_worker_sampled:
  "sampling_inv \<lparr>src = NewSource seed, pos = 0\<rparr> d (int (length (tables b)))
     (run_worker NewSource b r thread d seed envs)"
proof (induction envs rule: rev_induct)
  case Nil
  show ?case by (simp add: run_worker_Nil worker_init_def sampling_inv_def)
next
  case (snoc e envs)
  then show ?case by (simp only: run_worker_snoc step_sampling_inv)
qed

text \<open>
  C3. Two runs of a worker with the same seed, the same distribution and the same number
  of tables sample the same indices in the same order, whatever else differs: the role,
  the thread id, the tables themselves, what the client answers, the clock, and when the
  run is cancelled. The two sequences agree wherever both are defined, and are equal when
  the runs have sampled equally often.
\<close>

theorem sampled_indices_deterministic:
  assumes N: "length (tables b1) = length (tables b2)"
  shows "(\<forall>i. i < length (w_sampled (run_worker NewSource b1 r1 thread1 d seed envs1)) \<and>
              i < length (w_sampled (run_worker NewSource b2 r2 thread2 d seed envs2)) \<longrightarrow>
            w_sampled (run_worker NewSource b1 r1 thread1 d seed envs1) ! i =
            w_sampled (run_worker NewSource b2 r2 thread2 d seed envs2) ! i) \<and>
         (length (w_sampled (run_worker NewSource b1 r1 thread1 d seed envs1)) =
          length (w_sampled (run_worker NewSource b2 r2 thread2 d seed envs2)) \<longrightarrow>
            w_sampled (run_worker NewSource b1 r1 thread1 d seed envs1) =
            w_sampled (run_worker NewSource b2 r2 thread2 d seed envs2))"
proof -
  let ?rng0 = "\<lparr>src = NewSource seed, pos = 0\<rparr>"
  let ?N = "int (length (tables b1))"
  let ?s1 = "w_sampled (run_worker NewSource b1 r1 thread1 d seed envs1)"
  let ?s2 = "w_sampled (run_worker NewSource b2 r2 thread2 d seed envs2)"
  have s1: "?s1 = index_seq ?rng0 d ?N (length ?s1)"
    using run_worker_sampled [of NewSource seed d b1 r1 thread1 envs1]
    by (simp add: sampling_inv_def)
  have s2: "?s2 = index_seq ?rng0 d ?N (length ?s2)"
    using run_worker_sampled [of NewSource seed d b2 r2 thread2 envs2] N
    by (simp add: sampling_inv_def)
  have nth: "?s1 ! i = ?s2 ! i" if "i < length ?s1" "i < length ?s2" for i
  proof -
    have "?s1 ! i = fst (sampleTableIndex (rng_after ?rng0 d ?N i) d ?N)"
      by (subst s1) (rule index_seq_nth [OF that(1)])
    moreover have "?s2 ! i = fst (sampleTableIndex (rng_after ?rng0 d ?N i) d ?N)"
      by (subst s2) (rule index_seq_nth [OF that(2)])
    ultimately show ?thesis by simp
  qed
  have eq: "?s1 = ?s2" if "length ?s1 = length ?s2"
    using that nth by (simp add: list_eq_iff_nth_eq)
  show ?thesis using nth eq by blast
qed

lemma sampled_reader_example:
  "w_sampled (run_worker zero_source prepared_job Reader 3 reader_dist 1045 [env_ok, env_ok, env_fail]) = [12, 12]"
  by (simp add: run_worker_def runReader_def worker_init_def worker_step_def reader_body_def sampleTableIndex_example
      prepared_job_def example_job_def example_table_def env_ok_def env_fail_def Let_def)

lemma sampled_writer_example:
  "length (w_sampled (run_worker zero_source prepared_job Writer 9 reader_dist 1045
      [env_blocked, env_fail, env_fail, env_ok])) = 2"
  by (simp add: run_worker_def runWriter_def worker_init_def worker_step_def writer_body_def sampleTableIndex_example
      prepared_job_def example_job_def example_table_def env_ok_def env_fail_def env_blocked_def Let_def)

theorem sampled_indices_deterministic_witness:
  "w_sampled (run_worker zero_source prepared_job Writer 9 reader_dist 1045
      [env_blocked, env_fail, env_fail, env_ok]) = [12, 12]"
  using sampled_indices_deterministic
      [of prepared_job prepared_job zero_source Writer 9 reader_dist 1045
          "[env_blocked, env_fail, env_fail, env_ok]" Reader 3 "[env_ok, env_ok, env_fail]"]
    sampled_reader_example sampled_writer_example
  by simp

text \<open>With at least one table a worker never indexes \<open>b.tables\<close> out of range.\<close>

lemma body_no_panic:
  assumes "tables b \<noteq> []" and "w_pc w \<noteq> Panicked"
  shows "w_pc (body_of r b thread d e w) \<noteq> Panicked"
proof -
  have "1 \<le> int (length (tables b))"
    using assms(1) by (cases "tables b") simp_all
  from sampleTableIndex_clamped [OF this, of "w_rng w" d] assms(2) show ?thesis
    by (cases r)
      (auto simp: body_of_def reader_body_def writer_body_def Let_def split: prod.split)
qed

lemma run_worker_no_panic:
  assumes "tables b \<noteq> []"
  shows "w_pc (run_worker NewSource b r thread d seed envs) \<noteq> Panicked"
proof (induction envs rule: rev_induct)
  case Nil
  show ?case by (simp add: run_worker_Nil worker_init_def)
next
  case (snoc e envs)
  then show ?case
    using body_no_panic [OF assms, of "run_worker NewSource b r thread d seed envs" r thread d e]
    by (cases "w_pc (run_worker NewSource b r thread d seed envs)")
      (simp_all add: run_worker_snoc worker_step_def)
qed

section \<open>Properties of Prepare and Cleanup\<close>

text \<open>
  C8. When the tree has no tables, \<open>Prepare\<close> returns the error
  \<open>no tables found: check tree configuration\<close> without calling the client, and the
  lifecycle does not reach \<open>Start\<close>. When there are tables and the probe of the first
  one fails, \<open>Prepare\<close> returns the client's error wrapped behind
  \<open>cannot access table: \<close>, and \<open>Start\<close> is not reached either. Otherwise \<open>Prepare\<close>
  succeeds and the benchmark holds the tables of the tree.
\<close>

theorem Prepare_errors:
  "(AllTables (NewTree (TreeConfig b)) = [] \<longrightarrow>
      snd (snd (Prepare NewTree client b)) =
        Some (ErrNew ''no tables found: check tree configuration'') \<and>
      filter is_client_call (fst (snd (Prepare NewTree client b))) = [] \<and>
      fst (snd (run_job NewTree client b)) = None) \<and>
   (AllTables (NewTree (TreeConfig b)) \<noteq> [] \<and>
    client (probe_request (TreeConfig b) (hd (AllTables (NewTree (TreeConfig b))))) = Some err \<longrightarrow>
      snd (snd (Prepare NewTree client b)) = Some (ErrWrap ''cannot access table: '' err) \<and>
      Unwrap (ErrWrap ''cannot access table: '' err) = Some err \<and>
      Error (ErrWrap ''cannot access table: '' err) = ''cannot access table: '' @ Error err \<and>
      fst (snd (run_job NewTree client b)) = None) \<and>
   (AllTables (NewTree (TreeConfig b)) \<noteq> [] \<and>
    client (probe_request (TreeConfig b) (hd (AllTables (NewTree (TreeConfig b))))) = None \<longrightarrow>
      snd (snd (Prepare NewTree client b)) = None \<and>
      tables (fst (Prepare NewTree client b)) = AllTables (NewTree (TreeConfig b)))"
proof -
  let ?ts = "AllTables (NewTree (TreeConfig b))"
  have empty: "snd (snd (Prepare NewTree client b)) =
        Some (ErrNew ''no tables found: check tree configuration'') \<and>
      filter is_client_call (fst (snd (Prepare NewTree client b))) = []" if "?ts = []"
    using that by (simp add: Prepare_def Let_def is_client_call_def)
  have hd0: "?ts ! 0 = hd ?ts" if "?ts \<noteq> []"
    using that by (simp add: hd_conv_nth)
  have probe: "snd (snd (Prepare NewTree client b)) = Some (ErrWrap ''cannot access table: '' err)"
    if "?ts \<noteq> []" "client (probe_request (TreeConfig b) (hd ?ts)) = Some err"
    using that hd0 by (simp add: Prepare_def Let_def probe_request_def)
  have ok: "snd (snd (Prepare NewTree client b)) = None \<and>
      tables (fst (Prepare NewTree client b)) = ?ts"
    if "?ts \<noteq> []" "client (probe_request (TreeConfig b) (hd ?ts)) = None"
    using that hd0 by (simp add: Prepare_def Let_def probe_request_def)
  have job: "fst (snd (run_job NewTree client b)) = None"
    if "snd (snd (Prepare NewTree client b)) = Some e" for e
    using that by (cases "Prepare NewTree client b") (auto simp: run_job_def)
  show ?thesis
    using empty probe ok job by simp
qed

theorem Prepare_errors_witness:
  "snd (snd (Prepare (\<lambda>cfg. \<lparr>TotalTables = 0, AllTables = []\<rparr>) (\<lambda>rq. None) example_job)) =
     Some (ErrNew ''no tables found: check tree configuration'') \<and>
   fst (snd (run_job (\<lambda>cfg. \<lparr>TotalTables = 0, AllTables = []\<rparr>) (\<lambda>rq. None) example_job)) = None \<and>
   snd (snd (Prepare (\<lambda>cfg. example_tree) (\<lambda>rq. Some (ErrNew ''connection refused'')) example_job)) =
     Some (ErrWrap ''cannot access table: '' (ErrNew ''connection refused'')) \<and>
   snd (snd (Prepare (\<lambda>cfg. example_tree) (\<lambda>rq. None) example_job)) = None"
  using Prepare_errors [of "\<lambda>cfg. \<lparr>TotalTables = 0, AllTables = []\<rparr>" example_job "\<lambda>rq. None"]
    Prepare_errors [of "\<lambda>cfg. example_tree" example_job "\<lambda>rq. Some (ErrNew ''connection refused'')"
      "ErrNew ''connection refused''"]
    Prepare_errors [of "\<lambda>cfg. example_tree" example_job "\<lambda>rq. None"]
  by (simp add: example_tree_def)

text \<open>The events of a successful \<open>Prepare\<close> on a catalog of two tables.\<close>

lemma Prepare_example_events:
  "fst (snd (Prepare (\<lambda>cfg. example_tree) (\<lambda>rq. None) example_job)) =
     [Status ''Loading dataset info: 2 tables'',
      Status ''Verifying catalog connectivity...'',
      Request (GetTable ''benchmark_catalog'' [''ns1'', ''a''] ''t1'') None,
      Status ''Preparation complete - 2 tables available for weighted workload'']"
  by (simp add: Prepare_def Let_def example_tree_def example_job_def show_int_def
      show_nat.simps [of 2] digit_chars_def)

text \<open>
  C10. \<open>Cleanup\<close> reports one status message and does nothing else: it calls the client
  not at all, so makes no mutating call, and it leaves the benchmark as it was.
\<close>

theorem Cleanup_no_client_calls:
  "fst (Cleanup b) = b \<and>
   snd (Cleanup b) = [Status ''Cleanup: skipping (weighted benchmark does not delete data)''] \<and>
   filter is_client_call (snd (Cleanup b)) = [] \<and>
   filter is_mutating_call (snd (Cleanup b)) = []"
  by (simp add: Cleanup_def is_client_call_def is_mutating_call_def)

end
